theory Spec2Isabelle
  imports Main
begin

section \<open>Data model\<close>

text \<open>
  The errors the services and the resolver raise, each with its message, and the errors
  of the collaborators: \<open>IllegalArguments\<close> is what \<open>bcrypt.compare\<close> rejects with when
  its second argument is not a string, \<open>RecordNotFound\<close> and \<open>UniqueConstraint\<close> are the
  store's own failures.
\<close>

datatype error =
    ConflictException string
  | BadRequestException string
  | IllegalArguments
  | RecordNotFound
  | UniqueConstraint

type_synonym time = nat

text \<open>
  The \<open>User\<close> class of \<open>user.model.ts\<close>: \<open>password\<close> and \<open>biometricKeys\<close> are optional
  fields. The field \<open>id\<close> is named \<open>id_field\<close> here (\<open>id\<close> is the identity function of HOL).
\<close>

record user =
  id_field :: int
  email :: string
  password :: "string option"
  biometricKeys :: "string list option"
  createdAt :: time
  updatedAt :: time

text \<open>The claims of a token (\<open>{ email: user.email, sub: user.id }\<close>) and the response.\<close>

record jwt_payload =
  email_claim :: string
  sub :: int

record auth_response =
  access_token :: string

section \<open>The store accessor\<close>

text \<open>
  Modelled from the spec: the Prisma client behind \<open>PrismaService\<close> (\<open>prisma.service.ts\<close>
  and the schema are not part of the sources). The store is the sequence of user records
  in the order \<open>findMany\<close> enumerates them, with the counter that assigns ids. Its contract
  is the one of section 6 of the specification: \<open>create\<close> fails when the email is taken,
  \<open>findUnique\<close> looks a record up by id or by email, \<open>findMany\<close> lists the records, and
  \<open>update\<close> appends one hash to the record with the given id. An \<open>update\<close> that finds no
  record with that id fails and changes nothing.
\<close>

record store =
  rows :: "user list"
  seq :: int

definition empty_store :: store where
  "empty_store = \<lparr>rows = [], seq = 1\<rparr>"

definition findUnique_email :: "store \<Rightarrow> string \<Rightarrow> user option" where
  "findUnique_email st e = find (\<lambda>u. email u = e) (rows st)"

definition findUnique_id :: "store \<Rightarrow> int \<Rightarrow> user option" where
  "findUnique_id st i = find (\<lambda>u. id_field u = i) (rows st)"

definition findMany :: "store \<Rightarrow> user list" where
  "findMany st = rows st"

definition create :: "store \<Rightarrow> time \<Rightarrow> string \<Rightarrow> string \<Rightarrow> string list \<Rightarrow> (error + user) \<times> store" where
  "create st now e pw ks =
     (case findUnique_email st e of
        Some _ \<Rightarrow> (Inl UniqueConstraint, st)
      | None \<Rightarrow>
          (let u = \<lparr>id_field = seq st, email = e, password = Some pw, biometricKeys = Some ks,
                    createdAt = now, updatedAt = now\<rparr>
           in (Inr u, st\<lparr>rows := rows st @ [u], seq := seq st + 1\<rparr>)))"

text \<open>\<open>user.biometricKeys || []\<close>: an absent sequence reads as the empty one.\<close>

definition keys_or_empty :: "user \<Rightarrow> string list" where
  "keys_or_empty u = (case biometricKeys u of None \<Rightarrow> [] | Some ks \<Rightarrow> ks)"

definition push_key :: "time \<Rightarrow> string \<Rightarrow> user \<Rightarrow> user" where
  "push_key now h u = u\<lparr>biometricKeys := Some (keys_or_empty u @ [h]), updatedAt := now\<rparr>"

fun update_rows :: "time \<Rightarrow> int \<Rightarrow> string \<Rightarrow> user list \<Rightarrow> (user \<times> user list) option" where
  "update_rows now i h [] = None"
| "update_rows now i h (u # us) =
     (if id_field u = i then Some (push_key now h u, push_key now h u # us)
      else (case update_rows now i h us of
              None \<Rightarrow> None
            | Some (r, us') \<Rightarrow> Some (r, u # us')))"

definition update :: "store \<Rightarrow> time \<Rightarrow> int \<Rightarrow> string \<Rightarrow> (error + user) \<times> store" where
  "update st now i h =
     (case update_rows now i h (rows st) of
        None \<Rightarrow> (Inl RecordNotFound, st)
      | Some (r, us') \<Rightarrow> (Inr r, st\<lparr>rows := us'\<rparr>))"

section \<open>The credential service (\<open>user.service.ts\<close>)\<close>

text \<open>
  \<open>bcrypt\<close> is a library: its two functions are parameters of the model.
  \<open>hsh salt plaintext rounds\<close> is \<open>bcrypt.hash(plaintext, rounds)\<close> with the salt it
  draws made explicit, and \<open>cmp plaintext hash\<close> is \<open>bcrypt.compare(plaintext, hash)\<close>
  on two strings. Every call of the services runs to its end before the next one starts.
\<close>

type_synonym hash_fn = "string \<Rightarrow> string \<Rightarrow> nat \<Rightarrow> string"
type_synonym compare_fn = "string \<Rightarrow> string \<Rightarrow> bool"

definition findByEmail :: "store \<Rightarrow> string \<Rightarrow> user option" where
  "findByEmail st e = findUnique_email st e"

definition findAll :: "store \<Rightarrow> user list" where
  "findAll st = findMany st"

text \<open>The inner loop of \<open>findUserByBiometricKey\<close>: it leaves at the first hash that verifies.\<close>

fun any_key_matches :: "compare_fn \<Rightarrow> string \<Rightarrow> string list \<Rightarrow> bool" where
  "any_key_matches cmp k [] = False"
| "any_key_matches cmp k (storedKey # ks) =
     (if cmp k storedKey then True else any_key_matches cmp k ks)"

text \<open>The outer loop: the first user one of whose hashes verifies, else \<open>null\<close>.\<close>

fun scan_users :: "compare_fn \<Rightarrow> string \<Rightarrow> user list \<Rightarrow> user option" where
  "scan_users cmp k [] = None"
| "scan_users cmp k (u # us) =
     (if any_key_matches cmp k (keys_or_empty u) then Some u else scan_users cmp k us)"

definition findUserByBiometricKey :: "compare_fn \<Rightarrow> store \<Rightarrow> string \<Rightarrow> user option" where
  "findUserByBiometricKey cmp st k = scan_users cmp k (findMany st)"

definition createUser ::
  "hash_fn \<Rightarrow> store \<Rightarrow> time \<Rightarrow> string \<Rightarrow> string \<Rightarrow> string \<Rightarrow> (error + user) \<times> store" where
  "createUser hsh st now salt e pw =
     (case findByEmail st e of
        Some _ \<Rightarrow> (Inl (ConflictException ''User already exists''), st)
      | None \<Rightarrow> create st now e (hsh salt pw 10) [])"

definition addBiometricKey ::
  "hash_fn \<Rightarrow> compare_fn \<Rightarrow> store \<Rightarrow> time \<Rightarrow> string \<Rightarrow> int \<Rightarrow> string \<Rightarrow> (error + user) \<times> store" where
  "addBiometricKey hsh cmp st now salt userId k =
     (let hashedBiometricKey = hsh salt k 10
      in case findUserByBiometricKey cmp st k of
           Some _ \<Rightarrow> (Inl (ConflictException ''Biometric key already exists for another user''), st)
         | None \<Rightarrow> update st now userId hashedBiometricKey)"

definition biometricKeyExists :: "compare_fn \<Rightarrow> store \<Rightarrow> int \<Rightarrow> string \<Rightarrow> bool" where
  "biometricKeyExists cmp st userId k =
     (case findUnique_id st userId of
        None \<Rightarrow> False
      | Some u \<Rightarrow>
          (case biometricKeys u of
             None \<Rightarrow> False
           | Some ks \<Rightarrow> any_key_matches cmp k ks))"

section \<open>The authentication service (\<open>auth.service.ts\<close>)\<close>

text \<open>
  \<open>validateUser\<close> hands \<open>user.password\<close> to \<open>bcrypt.compare\<close>; on a record without a
  password the library rejects the call (its arguments must be two strings).
  \<open>sign\<close> is \<open>JwtService.sign\<close>, a parameter.
\<close>

definition validateUser :: "compare_fn \<Rightarrow> store \<Rightarrow> string \<Rightarrow> string \<Rightarrow> error + user option" where
  "validateUser cmp st e pw =
     (case findByEmail st e of
        None \<Rightarrow> Inr None
      | Some u \<Rightarrow>
          (case password u of
             None \<Rightarrow> Inl IllegalArguments
           | Some h \<Rightarrow> if cmp pw h then Inr (Some u) else Inr None))"

definition login :: "(jwt_payload \<Rightarrow> string) \<Rightarrow> user \<Rightarrow> auth_response" where
  "login sign u =
     (let payload = \<lparr>email_claim = email u, sub = id_field u\<rparr>
      in \<lparr>access_token = sign payload\<rparr>)"

definition biometricLogin ::
  "(jwt_payload \<Rightarrow> string) \<Rightarrow> compare_fn \<Rightarrow> store \<Rightarrow> string \<Rightarrow> error + auth_response" where
  "biometricLogin sign cmp st k =
     (case findUserByBiometricKey cmp st k of
        None \<Rightarrow> Inl (BadRequestException ''Invalid biometric key'')
      | Some u \<Rightarrow> Inr (login sign u))"

section \<open>The resolver (\<open>user.resolver.ts\<close>)\<close>

text \<open>
  \<open>registerWithBiometric\<close> is a \<open>try\<close> block whose \<open>catch\<close> replaces every error by one
  \<open>BadRequestException\<close>. \<open>registerWithBiometric_try\<close> is the block, with the error each
  of its steps raises; \<open>registerWithBiometric\<close> is the mutation as its caller sees it.
\<close>

definition registerWithBiometric_try ::
  "hash_fn \<Rightarrow> compare_fn \<Rightarrow> store \<Rightarrow> time \<Rightarrow> string \<Rightarrow> string \<Rightarrow> string \<Rightarrow> string
     \<Rightarrow> (error + string) \<times> store" where
  "registerWithBiometric_try hsh cmp st now salt e pw k =
     (case validateUser cmp st e pw of
        Inl err \<Rightarrow> (Inl err, st)
      | Inr None \<Rightarrow> (Inl (BadRequestException ''Invalid email or password''), st)
      | Inr (Some u) \<Rightarrow>
          (let keys = keys_or_empty u
           in if k \<in> set keys
              then (Inl (BadRequestException ''Biometric key already registered''), st)
              else (case addBiometricKey hsh cmp st now salt (id_field u) k of
                      (Inl err, st') \<Rightarrow> (Inl err, st')
                    | (Inr _, st') \<Rightarrow>
                        (Inr (''Biometric key added successfully for '' @ email u), st'))))"

definition registerWithBiometric ::
  "hash_fn \<Rightarrow> compare_fn \<Rightarrow> store \<Rightarrow> time \<Rightarrow> string \<Rightarrow> string \<Rightarrow> string \<Rightarrow> string
     \<Rightarrow> (error + string) \<times> store" where
  "registerWithBiometric hsh cmp st now salt e pw k =
     (case registerWithBiometric_try hsh cmp st now salt e pw k of
        (Inl _, st') \<Rightarrow> (Inl (BadRequestException ''Failed to set up biometric key''), st')
      | (Inr msg, st') \<Rightarrow> (Inr msg, st'))"

section \<open>Sequences of operations\<close>

text \<open>
  The two operations that write to the store, and a run of them from a given store. A
  call that fails leaves the store as it was and the run goes on.
\<close>

datatype operation =
    CreateUser time string string string
  | AddBiometricKey time string int string

fun apply_operation :: "hash_fn \<Rightarrow> compare_fn \<Rightarrow> store \<Rightarrow> operation \<Rightarrow> store" where
  "apply_operation hsh cmp st (CreateUser now salt e pw) = snd (createUser hsh st now salt e pw)"
| "apply_operation hsh cmp st (AddBiometricKey now salt userId k) =
     snd (addBiometricKey hsh cmp st now salt userId k)"

definition run :: "hash_fn \<Rightarrow> compare_fn \<Rightarrow> store \<Rightarrow> operation list \<Rightarrow> store" where
  "run hsh cmp st ops = foldl (apply_operation hsh cmp) st ops"

text \<open>
  \<open>addBiometricKey\<close> suspends at each \<open>await\<close>, and nothing holds the store between
  its scan and its write. \<open>addBiometricKey_scan\<close> is the call up to the \<open>throw\<close> (the
  hash and the scan of all records), \<open>addBiometricKey_write\<close> is the update that follows.
  \<open>addBiometricKey_interleaved\<close> is the schedule of two calls in which both scan the
  same store before either writes.
\<close>

definition addBiometricKey_scan :: "hash_fn \<Rightarrow> compare_fn \<Rightarrow> store \<Rightarrow> string \<Rightarrow> string \<Rightarrow> error + string" where
  "addBiometricKey_scan hsh cmp st salt k =
     (let hashedBiometricKey = hsh salt k 10
      in case findUserByBiometricKey cmp st k of
           Some _ \<Rightarrow> Inl (ConflictException ''Biometric key already exists for another user'')
         | None \<Rightarrow> Inr hashedBiometricKey)"

definition addBiometricKey_write :: "store \<Rightarrow> time \<Rightarrow> int \<Rightarrow> string \<Rightarrow> (error + user) \<times> store" where
  "addBiometricKey_write st now userId hashedBiometricKey = update st now userId hashedBiometricKey"

definition addBiometricKey_interleaved ::
  "hash_fn \<Rightarrow> compare_fn \<Rightarrow> store \<Rightarrow> time \<Rightarrow> string \<Rightarrow> int \<Rightarrow> string
     \<Rightarrow> time \<Rightarrow> string \<Rightarrow> int \<Rightarrow> string \<Rightarrow> (error + user) \<times> (error + user) \<times> store" where
  "addBiometricKey_interleaved hsh cmp st now1 salt1 userId1 k1 now2 salt2 userId2 k2 =
     (let scan1 = addBiometricKey_scan hsh cmp st salt1 k1;
          scan2 = addBiometricKey_scan hsh cmp st salt2 k2;
          (res1, st1) = (case scan1 of
                           Inl err \<Rightarrow> (Inl err, st)
                         | Inr hashed \<Rightarrow> addBiometricKey_write st now1 userId1 hashed);
          (res2, st2) = (case scan2 of
                           Inl err \<Rightarrow> (Inl err, st1)
                         | Inr hashed \<Rightarrow> addBiometricKey_write st1 now2 userId2 hashed)
      in (res1, res2, st2))"

section \<open>Assumptions on the hash library, and a stand-in for it\<close>

text \<open>
  \<open>bcrypt_sound\<close>: a plaintext verifies against every hash made from it.
  \<open>bcrypt_ideal\<close>: whether a plaintext verifies against a hash depends only on the
  plaintext the hash was made from, through a normal form \<open>norm\<close> of plaintexts (the
  library reads a bounded prefix of its input), never on the salt or the rounds.
\<close>

definition bcrypt_sound :: "hash_fn \<Rightarrow> compare_fn \<Rightarrow> bool" where
  "bcrypt_sound hsh cmp = (\<forall>salt p r. cmp p (hsh salt p r))"

definition bcrypt_ideal :: "hash_fn \<Rightarrow> compare_fn \<Rightarrow> (string \<Rightarrow> string) \<Rightarrow> bool" where
  "bcrypt_ideal hsh cmp norm = (\<forall>salt p q r. cmp p (hsh salt q r) = (norm p = norm q))"

text \<open>
  A small stand-in with these properties, for running the model on concrete inputs: the
  hash is the plaintext behind one character taken from the salt.
\<close>

definition fake_hash :: hash_fn where
  "fake_hash salt p r = (case salt of [] \<Rightarrow> CHR ''$'' | c # _ \<Rightarrow> c) # p"

definition fake_compare :: compare_fn where
  "fake_compare p h = (case h of [] \<Rightarrow> False | _ # q \<Rightarrow> q = p)"

definition fake_sign :: "jwt_payload \<Rightarrow> string" where
  "fake_sign p = ''jwt:'' @ email_claim p"

text \<open>
  A store to run the model on: Bob's record has no \<open>biometricKeys\<close> field, Alice has
  one biometric key, Carol's sequence is empty.
\<close>

definition bob :: user where
  "bob = \<lparr>id_field = 1, email = ''b@x.com'', password = Some (fake_hash ''s1'' ''pw-b'' 10),
           biometricKeys = None, createdAt = 1, updatedAt = 1\<rparr>"

definition alice :: user where
  "alice = \<lparr>id_field = 2, email = ''a@x.com'', password = Some (fake_hash ''s2'' ''pw1'' 10),
             biometricKeys = Some [fake_hash ''s3'' ''bio1'' 10], createdAt = 2, updatedAt = 3\<rparr>"

definition carol :: user where
  "carol = \<lparr>id_field = 3, email = ''c@x.com'', password = Some (fake_hash ''s4'' ''pw-c'' 10),
             biometricKeys = Some [], createdAt = 4, updatedAt = 4\<rparr>"

definition example_store :: store where
  "example_store = \<lparr>rows = [bob, alice, carol], seq = 4\<rparr>"

text \<open>
  The records of a store one of whose hashes verifies against a plaintext, and a record
  read with \<open>user.biometricKeys || []\<close> in the place of its key sequence.
\<close>

definition matching_users :: "compare_fn \<Rightarrow> string \<Rightarrow> store \<Rightarrow> user list" where
  "matching_users cmp k st = filter (\<lambda>u. any_key_matches cmp k (keys_or_empty u)) (rows st)"

definition with_keys_present :: "user \<Rightarrow> user" where
  "with_keys_present u = u\<lparr>biometricKeys := Some (keys_or_empty u)\<rparr>"

text \<open>
  A run to evaluate: two registrations, a biometric key for the first user, the same key
  for the second user (refused), a second registration of the first email (refused), and
  another key for the second user.
\<close>

definition example_operations :: "operation list" where
  "example_operations =
     [CreateUser 1 ''s1'' ''a@x.com'' ''pw1'',
      CreateUser 2 ''s2'' ''b@x.com'' ''pw2'',
      AddBiometricKey 3 ''s3'' 1 ''bio1'',
      AddBiometricKey 4 ''s4'' 2 ''bio1'',
      CreateUser 5 ''s5'' ''a@x.com'' ''pw3'',
      AddBiometricKey 6 ''s6'' 2 ''bio2'']"

text \<open>A store with two registered users and no biometric key, built by the service.\<close>

definition two_users :: store where
  "two_users = run fake_hash fake_compare empty_store
     [CreateUser 1 ''s1'' ''a@x.com'' ''pw1'', CreateUser 2 ''s2'' ''b@x.com'' ''pw2'']"

section \<open>Basic facts\<close>

lemma any_key_matches_iff: "any_key_matches cmp k ks \<longleftrightarrow> (\<exists>h \<in> set ks. cmp k h)"
  by (induction ks) auto

lemma scan_users_find:
  "scan_users cmp k us = find (\<lambda>u. \<exists>h \<in> set (keys_or_empty u). cmp k h) us"
  by (induction us) (auto simp: any_key_matches_iff)

lemma scan_users_None_iff:
  "scan_users cmp k us = None \<longleftrightarrow> (\<forall>u \<in> set us. \<forall>h \<in> set (keys_or_empty u). \<not> cmp k h)"
  by (induction us) (auto simp: any_key_matches_iff)

lemma fake_bcrypt_sound: "bcrypt_sound fake_hash fake_compare"
  by (simp add: bcrypt_sound_def fake_hash_def fake_compare_def)

lemma fake_bcrypt_ideal: "bcrypt_ideal fake_hash fake_compare (\<lambda>p. p)"
  by (auto simp: bcrypt_ideal_def fake_hash_def fake_compare_def)

lemma findByEmail_None_iff: "findByEmail st e = None \<longleftrightarrow> (\<forall>u \<in> set (rows st). email u \<noteq> e)"
  by (auto simp: findByEmail_def findUnique_email_def find_None_iff)

lemma keys_or_empty_push_key [simp]: "keys_or_empty (push_key now h u) = keys_or_empty u @ [h]"
  by (simp add: push_key_def keys_or_empty_def)

lemma id_field_push_key [simp]: "id_field (push_key now h u) = id_field u"
  by (simp add: push_key_def)

lemma any_key_matches_append [simp]:
  "any_key_matches cmp k (ks @ ks') \<longleftrightarrow> any_key_matches cmp k ks \<or> any_key_matches cmp k ks'"
  by (induction ks) auto

lemma update_rows_None: "find (\<lambda>u. id_field u = i) us = None \<Longrightarrow> update_rows now i h us = None"
  by (induction us) (auto split: if_splits)

text \<open>\<open>update\<close> rewrites the first record with the id, in place, and nothing else.\<close>

lemma update_rows_Some:
  "find (\<lambda>u. id_field u = i) us = Some u \<Longrightarrow>
   \<exists>pre post. us = pre @ u # post \<and> (\<forall>v \<in> set pre. id_field v \<noteq> i) \<and>
      update_rows now i h us = Some (push_key now h u, pre @ push_key now h u # post)"
proof (induction us)
  case Nil
  then show ?case by simp
next
  case (Cons a us)
  show ?case
  proof (cases "id_field a = i")
    case True
    with Cons.prems have "a = u" by simp
    with True have "a # us = [] @ u # us \<and> (\<forall>v \<in> set []. id_field v \<noteq> i) \<and>
      update_rows now i h (a # us) = Some (push_key now h u, [] @ push_key now h u # us)"
      by simp
    then show ?thesis by blast
  next
    case False
    with Cons.prems have "find (\<lambda>u. id_field u = i) us = Some u" by simp
    from Cons.IH [OF this] obtain pre post where
      pp: "us = pre @ u # post" "\<forall>v \<in> set pre. id_field v \<noteq> i"
          "update_rows now i h us = Some (push_key now h u, pre @ push_key now h u # post)"
      by blast
    from pp False have "a # us = (a # pre) @ u # post \<and> (\<forall>v \<in> set (a # pre). id_field v \<noteq> i) \<and>
      update_rows now i h (a # us) = Some (push_key now h u, (a # pre) @ push_key now h u # post)"
      by simp
    then show ?thesis by blast
  qed
qed

lemma find_mid:
  "(\<forall>v \<in> set pre. \<not> P v) \<Longrightarrow> P u \<Longrightarrow> find P (pre @ u # post) = Some u"
  by (induction pre) auto

lemmas example_defs = example_store_def alice_def bob_def carol_def fake_hash_def fake_compare_def
  fake_sign_def keys_or_empty_def findMany_def findUnique_id_def findUnique_email_def findByEmail_def

lemma createUser_fresh:
  assumes "\<forall>v \<in> set (rows st). email v \<noteq> e"
  shows "createUser hsh st now salt e pw
     = (Inr \<lparr>id_field = seq st, email = e, password = Some (hsh salt pw 10), biometricKeys = Some [],
              createdAt = now, updatedAt = now\<rparr>,
        st\<lparr>rows := rows st @ [\<lparr>id_field = seq st, email = e, password = Some (hsh salt pw 10),
                                 biometricKeys = Some [], createdAt = now, updatedAt = now\<rparr>],
            seq := seq st + 1\<rparr>)"
proof -
  from assms have "findByEmail st e = None" by (simp add: findByEmail_None_iff)
  then show ?thesis
    by (simp add: createUser_def create_def findByEmail_def Let_def)
qed

lemma find_append_new:
  "(\<forall>v \<in> set us. \<not> P v) \<Longrightarrow> P u \<Longrightarrow> find P (us @ [u]) = Some u"
  using find_mid [of us P u "[]"] by simp

lemma biometricKeyExists_iff:
  "biometricKeyExists cmp st userId k
     \<longleftrightarrow> (\<exists>u. findUnique_id st userId = Some u \<and> (\<exists>h \<in> set (keys_or_empty u). cmp k h))"
  by (auto simp: biometricKeyExists_def keys_or_empty_def any_key_matches_iff split: option.splits)

lemma update_Inr:
  assumes "update st now i h = (Inr r, st')"
  shows "\<exists>u pre post. rows st = pre @ u # post \<and> (\<forall>v \<in> set pre. id_field v \<noteq> i) \<and> id_field u = i
     \<and> r = push_key now h u \<and> st' = st\<lparr>rows := pre @ push_key now h u # post\<rparr>"
proof (cases "find (\<lambda>u. id_field u = i) (rows st)")
  case None
  from update_rows_None [OF this] assms show ?thesis
    by (simp add: update_def)
next
  case (Some u)
  from update_rows_Some [OF this, of now h] obtain pre post where
    pp: "rows st = pre @ u # post" "\<forall>v \<in> set pre. id_field v \<noteq> i"
        "update_rows now i h (rows st) = Some (push_key now h u, pre @ push_key now h u # post)"
    by blast
  from Some have "id_field u = i"
    by (auto simp: find_Some_iff)
  with pp assms show ?thesis
    by (auto simp: update_def)
qed

lemma addBiometricKey_Inr:
  assumes "addBiometricKey hsh cmp st now salt i k = (Inr r, st')"
  shows "findUserByBiometricKey cmp st k = None \<and> update st now i (hsh salt k 10) = (Inr r, st')"
  using assms by (auto simp: addBiometricKey_def Let_def split: option.splits)

lemma keys_or_empty_with_keys_present [simp]:
  "keys_or_empty (with_keys_present u) = keys_or_empty u"
  by (simp add: with_keys_present_def keys_or_empty_def)

lemma with_keys_present_id: "biometricKeys u \<noteq> None \<Longrightarrow> with_keys_present u = u"
  by (auto simp: with_keys_present_def keys_or_empty_def)

lemma any_key_matches_keys_present:
  "any_key_matches cmp k (keys_or_empty u) \<Longrightarrow> biometricKeys u \<noteq> None"
  by (cases "biometricKeys u") (simp_all add: keys_or_empty_def)

lemma scan_users_with_keys_present:
  "scan_users cmp k (map with_keys_present us) = scan_users cmp k us"
  by (induction us) (auto simp: with_keys_present_id dest: any_key_matches_keys_present)

lemma scan_users_Some_keys:
  "scan_users cmp k us = Some u \<Longrightarrow> biometricKeys u \<noteq> None"
  by (induction us) (auto dest: any_key_matches_keys_present split: if_splits)

lemma find_id_with_keys_present:
  "find (\<lambda>u. id_field u = i) (map with_keys_present us)
     = map_option with_keys_present (find (\<lambda>u. id_field u = i) us)"
  by (induction us) (auto simp: with_keys_present_def)

lemma ideal_sound: "bcrypt_ideal hsh cmp norm \<Longrightarrow> bcrypt_sound hsh cmp"
  by (simp add: bcrypt_ideal_def bcrypt_sound_def)

lemma createUser_rows:
  "rows (snd (createUser hsh st now salt e pw)) = rows st
   \<or> (\<exists>u. keys_or_empty u = [] \<and> rows (snd (createUser hsh st now salt e pw)) = rows st @ [u])"
  by (auto simp: createUser_def create_def Let_def keys_or_empty_def split: option.splits)

lemma addBiometricKey_rows:
  "snd (addBiometricKey hsh cmp st now salt i k) = st
   \<or> (findUserByBiometricKey cmp st k = None \<and>
      (\<exists>u pre post. rows st = pre @ u # post
         \<and> rows (snd (addBiometricKey hsh cmp st now salt i k)) = pre @ push_key now (hsh salt k 10) u # post))"
proof (cases "addBiometricKey hsh cmp st now salt i k")
  case (Pair res st')
  show ?thesis
  proof (cases res)
    case (Inl err)
    with Pair have "st' = st"
      by (auto simp: addBiometricKey_def update_def Let_def split: option.splits)
    with Pair show ?thesis by simp
  next
    case (Inr r)
    with Pair have add: "addBiometricKey hsh cmp st now salt i k = (Inr r, st')" by simp
    from addBiometricKey_Inr [OF add] have
      none: "findUserByBiometricKey cmp st k = None"
      and upd: "update st now i (hsh salt k 10) = (Inr r, st')" by simp_all
    from update_Inr [OF upd] obtain u pre post where
      "rows st = pre @ u # post" "st' = st\<lparr>rows := pre @ push_key now (hsh salt k 10) u # post\<rparr>"
      by blast
    with none Pair show ?thesis by auto
  qed
qed

text \<open>A stored hash that verifies keeps verifying: the operations only append.\<close>

lemma match_persists_step:
  assumes "\<exists>u \<in> set (rows st). \<exists>h \<in> set (keys_or_empty u). cmp k h"
  shows "\<exists>u \<in> set (rows (apply_operation hsh cmp' st opn)). \<exists>h \<in> set (keys_or_empty u). cmp k h"
proof (cases opn)
  case (CreateUser now salt e pw)
  with assms createUser_rows [of hsh st now salt e pw] show ?thesis
    by auto
next
  case (AddBiometricKey now salt i k')
  from addBiometricKey_rows [of hsh cmp' st now salt i k']
  show ?thesis
  proof
    assume "snd (addBiometricKey hsh cmp' st now salt i k') = st"
    with assms AddBiometricKey show ?thesis by simp
  next
    assume "findUserByBiometricKey cmp' st k' = None \<and>
      (\<exists>u pre post. rows st = pre @ u # post
         \<and> rows (snd (addBiometricKey hsh cmp' st now salt i k')) = pre @ push_key now (hsh salt k' 10) u # post)"
    then obtain u pre post where
      r: "rows st = pre @ u # post"
         "rows (snd (addBiometricKey hsh cmp' st now salt i k')) = pre @ push_key now (hsh salt k' 10) u # post"
      by blast
    from assms obtain v h where vh: "v \<in> set (rows st)" "h \<in> set (keys_or_empty v)" "cmp k h"
      by blast
    show ?thesis
    proof (cases "v = u")
      case True
      with vh have "h \<in> set (keys_or_empty (push_key now (hsh salt k' 10) u))" by simp
      with vh(3) r(2) AddBiometricKey show ?thesis by auto
    next
      case False
      with vh(1) r(1) have "v \<in> set (pre @ push_key now (hsh salt k' 10) u # post)" by auto
      with vh(2,3) r(2) AddBiometricKey show ?thesis by auto
    qed
  qed
qed

lemma match_persists_run:
  "\<exists>u \<in> set (rows st). \<exists>h \<in> set (keys_or_empty u). cmp k h \<Longrightarrow>
   \<exists>u \<in> set (rows (run hsh cmp' st ops)). \<exists>h \<in> set (keys_or_empty u). cmp k h"
  unfolding run_def
proof (induction ops arbitrary: st)
  case Nil
  then show ?case by simp
next
  case (Cons opn ops)
  from match_persists_step [where cmp = cmp and k = k and st = st, OF Cons.prems, of hsh cmp' opn]
  have "\<exists>u \<in> set (rows (apply_operation hsh cmp' st opn)). \<exists>h \<in> set (keys_or_empty u). cmp k h" .
  from Cons.IH [where st = "apply_operation hsh cmp' st opn", OF this] show ?case by simp
qed

lemma conflict_after_success:
  assumes sound: "bcrypt_sound hsh cmp"
    and add: "addBiometricKey hsh cmp st now salt userId k = (Inr r, st1)"
  shows "addBiometricKey hsh cmp (run hsh cmp st1 ops) now' salt' userId' k
    = (Inl (ConflictException ''Biometric key already exists for another user''), run hsh cmp st1 ops)"
proof -
  from addBiometricKey_Inr [OF add] have "update st now userId (hsh salt k 10) = (Inr r, st1)"
    by simp
  from update_Inr [OF this] obtain u pre post where
    st1: "st1 = st\<lparr>rows := pre @ push_key now (hsh salt k 10) u # post\<rparr>"
    by blast
  from sound have "cmp k (hsh salt k 10)" by (simp add: bcrypt_sound_def)
  then have "\<exists>h \<in> set (keys_or_empty (push_key now (hsh salt k 10) u)). cmp k h" by simp
  with st1 have "\<exists>u \<in> set (rows st1). \<exists>h \<in> set (keys_or_empty u). cmp k h"
    by auto
  from match_persists_run [where cmp = cmp and k = k and st = st1, OF this, of hsh cmp ops]
  have "\<exists>u \<in> set (rows (run hsh cmp st1 ops)). \<exists>h \<in> set (keys_or_empty u). cmp k h" .
  then have "findUserByBiometricKey cmp (run hsh cmp st1 ops) k \<noteq> None"
    by (simp add: findUserByBiometricKey_def findMany_def scan_users_None_iff)
  then show ?thesis
    by (auto simp: addBiometricKey_def)
qed

text \<open>The invariant of the runs: every stored hash was made by the hash function, and
  each plaintext matches at most one record.\<close>

lemma invariant_step:
  assumes ideal: "bcrypt_ideal hsh cmp norm"
    and made: "\<forall>u \<in> set (rows st). \<forall>h \<in> set (keys_or_empty u). \<exists>s q r. h = hsh s q r"
    and one: "\<forall>p. length (matching_users cmp p st) \<le> 1"
  shows "(\<forall>u \<in> set (rows (apply_operation hsh cmp st opn)). \<forall>h \<in> set (keys_or_empty u). \<exists>s q r. h = hsh s q r)
    \<and> (\<forall>p. length (matching_users cmp p (apply_operation hsh cmp st opn)) \<le> 1)"
proof (cases opn)
  case (CreateUser now salt e pw)
  from createUser_rows [of hsh st now salt e pw] made one CreateUser show ?thesis
    by (auto simp: matching_users_def)
next
  case (AddBiometricKey now salt i k)
  let ?st' = "snd (addBiometricKey hsh cmp st now salt i k)"
  let ?h = "hsh salt k 10"
  from addBiometricKey_rows [of hsh cmp st now salt i k]
  show ?thesis
  proof
    assume "?st' = st"
    with made one AddBiometricKey show ?thesis by simp
  next
    assume "findUserByBiometricKey cmp st k = None \<and>
      (\<exists>u pre post. rows st = pre @ u # post \<and> rows ?st' = pre @ push_key now ?h u # post)"
    then obtain u pre post where
      none: "findUserByBiometricKey cmp st k = None"
      and r: "rows st = pre @ u # post" "rows ?st' = pre @ push_key now ?h u # post"
      by blast
    from none have nomatch: "\<forall>v \<in> set (rows st). \<forall>h \<in> set (keys_or_empty v). \<not> cmp k h"
      by (simp add: findUserByBiometricKey_def findMany_def scan_users_None_iff)
    have made': "\<forall>v \<in> set (rows ?st'). \<forall>h \<in> set (keys_or_empty v). \<exists>s q r. h = hsh s q r"
      using made r by auto
    have one': "length (matching_users cmp p ?st') \<le> 1" for p
    proof (cases "cmp p ?h")
      case True
      with ideal have np: "norm p = norm k" by (simp add: bcrypt_ideal_def)
      have "\<not> cmp p h" if "v \<in> set (rows st)" "h \<in> set (keys_or_empty v)" for v h
      proof
        assume c: "cmp p h"
        from made that obtain s q r' where h: "h = hsh s q r'" by blast
        with c ideal have "norm p = norm q" by (simp add: bcrypt_ideal_def)
        with np have "norm k = norm q" by simp
        with ideal h have "cmp k h" by (simp add: bcrypt_ideal_def)
        with nomatch that show False by blast
      qed
      then have "\<forall>v \<in> set (rows st). \<not> any_key_matches cmp p (keys_or_empty v)"
        by (auto simp: any_key_matches_iff)
      with r(1) have "filter (\<lambda>v. any_key_matches cmp p (keys_or_empty v)) pre = []"
        "filter (\<lambda>v. any_key_matches cmp p (keys_or_empty v)) post = []"
        by (auto simp: filter_empty_conv)
      with r(2) show ?thesis
        by (simp add: matching_users_def)
    next
      case False
      then have "any_key_matches cmp p (keys_or_empty (push_key now ?h u))
          = any_key_matches cmp p (keys_or_empty u)"
        by simp
      with r have "length (matching_users cmp p ?st') = length (matching_users cmp p st)"
        by (simp add: matching_users_def)
      with one show ?thesis by simp
    qed
    from made' one' AddBiometricKey show ?thesis by simp
  qed
qed

lemma invariant_run:
  assumes ideal: "bcrypt_ideal hsh cmp norm"
  shows "(\<forall>u \<in> set (rows st). \<forall>h \<in> set (keys_or_empty u). \<exists>s q r. h = hsh s q r) \<Longrightarrow>
    (\<forall>p. length (matching_users cmp p st) \<le> 1) \<Longrightarrow>
    (\<forall>p. length (matching_users cmp p (run hsh cmp st ops)) \<le> 1)"
  unfolding run_def
proof (induction ops arbitrary: st)
  case Nil
  then show ?case by simp
next
  case (Cons opn ops)
  from invariant_step [OF ideal Cons.prems, of opn]
  have "\<forall>u \<in> set (rows (apply_operation hsh cmp st opn)). \<forall>h \<in> set (keys_or_empty u). \<exists>s q r. h = hsh s q r"
    and "\<forall>p. length (matching_users cmp p (apply_operation hsh cmp st opn)) \<le> 1"
    by blast+
  from Cons.IH [OF this] show ?case by simp
qed

lemma password_push_key [simp]: "password (push_key now h u) = password u"
  by (simp add: push_key_def)

lemma password_present_step:
  assumes "\<forall>u \<in> set (rows st). password u \<noteq> None"
  shows "\<forall>u \<in> set (rows (apply_operation hsh cmp st opn)). password u \<noteq> None"
proof (cases opn)
  case (CreateUser now salt e pw)
  with assms show ?thesis
    by (auto simp: createUser_def create_def Let_def split: option.splits)
next
  case (AddBiometricKey now salt i k)
  from addBiometricKey_rows [of hsh cmp st now salt i k] assms AddBiometricKey
  show ?thesis by auto
qed

lemma password_present_run:
  "\<forall>u \<in> set (rows st). password u \<noteq> None \<Longrightarrow>
   \<forall>u \<in> set (rows (run hsh cmp st ops)). password u \<noteq> None"
  unfolding run_def
proof (induction ops arbitrary: st)
  case Nil
  then show ?case by simp
next
  case (Cons opn ops)
  from password_present_step [OF Cons.prems, of hsh cmp opn]
  have "\<forall>u \<in> set (rows (apply_operation hsh cmp st opn)). password u \<noteq> None" .
  from Cons.IH [OF this] show ?case by simp
qed

lemma validateUser_no_error:
  assumes "\<forall>u \<in> set (rows st). password u \<noteq> None"
  shows "validateUser cmp st e pw \<noteq> Inl err"
proof (cases "findByEmail st e")
  case None
  then show ?thesis by (simp add: validateUser_def)
next
  case (Some u)
  then have "u \<in> set (rows st)"
    by (auto simp: findByEmail_def findUnique_email_def find_Some_iff)
  with assms obtain h where "password u = Some h" by auto
  with Some show ?thesis by (simp add: validateUser_def)
qed

text \<open>A call that runs alone is its scan followed by its write, on the same store.\<close>

lemma addBiometricKey_scan_write:
  "addBiometricKey hsh cmp st now salt userId k =
     (case addBiometricKey_scan hsh cmp st salt k of
        Inl err \<Rightarrow> (Inl err, st)
      | Inr hashed \<Rightarrow> addBiometricKey_write st now userId hashed)"
  by (simp add: addBiometricKey_def addBiometricKey_scan_def addBiometricKey_write_def Let_def
      split: option.splits)

lemma registerWithBiometric_of_try:
  "registerWithBiometric hsh cmp st now salt e pw k =
     (case registerWithBiometric_try hsh cmp st now salt e pw k of
        (Inl _, st') \<Rightarrow> (Inl (BadRequestException ''Failed to set up biometric key''), st')
      | (Inr msg, st') \<Rightarrow> (Inr msg, st'))"
  by (simp add: registerWithBiometric_def)

lemmas run_defs = run_def createUser_def create_def addBiometricKey_def update_def push_key_def
  findUserByBiometricKey_def empty_store_def Let_def matching_users_def validateUser_def
  biometricKeyExists_def registerWithBiometric_def registerWithBiometric_try_def

section \<open>Claims\<close>

text \<open>
  C3. \<open>findUserByBiometricKey\<close> goes through the records in the order the store
  enumerates them and through the hashes of each; it returns the first record one of
  whose hashes verifies against the plaintext, and \<open>null\<close> exactly when no stored hash
  verifies.
\<close>

theorem C3_findUserByBiometricKey_first_match:
  "findUserByBiometricKey cmp st k
     = find (\<lambda>u. \<exists>h \<in> set (keys_or_empty u). cmp k h) (findMany st)
   \<and> (findUserByBiometricKey cmp st k = None
        \<longleftrightarrow> (\<forall>u \<in> set (findMany st). \<forall>h \<in> set (keys_or_empty u). \<not> cmp k h))"
  unfolding findUserByBiometricKey_def
  using scan_users_find [of cmp k "findMany st"] scan_users_None_iff [of cmp k "findMany st"]
  by blast

theorem C3_findUserByBiometricKey_first_match_witness:
  "findUserByBiometricKey fake_compare example_store ''bio1'' = Some alice
   \<and> (\<exists>u \<in> set (findMany example_store). \<exists>h \<in> set (keys_or_empty u). fake_compare ''bio1'' h)
   \<and> findUserByBiometricKey fake_compare example_store ''bio2'' = None
   \<and> \<not> (\<exists>u \<in> set (findMany example_store). \<exists>h \<in> set (keys_or_empty u). fake_compare ''bio2'' h)"
  using C3_findUserByBiometricKey_first_match [of fake_compare example_store "''bio1''"]
    C3_findUserByBiometricKey_first_match [of fake_compare example_store "''bio2''"]
  by (simp add: example_defs)

text \<open>
  C6. When a record with the email already exists, \<open>createUser\<close> fails with the
  \<open>ConflictException\<close> "User already exists" and the store after the call is the store
  before it: no record is created or changed.
\<close>

theorem C6_createUser_existing_email:
  assumes "u \<in> set (rows st)" and "email u = e"
  shows "createUser hsh st now salt e pw = (Inl (ConflictException ''User already exists''), st)"
proof -
  from assms have "findByEmail st e \<noteq> None"
    by (auto simp: findByEmail_None_iff)
  then show ?thesis
    by (auto simp: createUser_def)
qed

theorem C6_createUser_existing_email_witness:
  "alice \<in> set (rows example_store) \<and> email alice = ''a@x.com''
   \<and> createUser fake_hash example_store 9 ''s9'' ''a@x.com'' ''other''
       = (Inl (ConflictException ''User already exists''), example_store)"
  using C6_createUser_existing_email [of alice example_store "''a@x.com''" fake_hash 9 "''s9''" "''other''"]
  by (simp add: example_defs)

text \<open>
  C2. \<open>addBiometricKey\<close> fails with a \<open>ConflictException\<close> exactly when some hash stored
  in some record verifies against the plaintext, whatever the \<open>userId\<close> (so also when the
  hash is the target user's own); the store is then unchanged. When no stored hash
  verifies and the target record exists, the call returns that record with the new hash
  \<open>hsh salt k 10\<close> appended to its sequence, and the store holds the updated record in
  the place of the old one.
\<close>

theorem C2_addBiometricKey_conflict_iff:
  "((\<exists>m. fst (addBiometricKey hsh cmp st now salt userId k) = Inl (ConflictException m))
      \<longleftrightarrow> (\<exists>u \<in> set (rows st). \<exists>h \<in> set (keys_or_empty u). cmp k h))
   \<and> ((\<exists>u \<in> set (rows st). \<exists>h \<in> set (keys_or_empty u). cmp k h) \<longrightarrow>
        addBiometricKey hsh cmp st now salt userId k
          = (Inl (ConflictException ''Biometric key already exists for another user''), st))
   \<and> (\<not> (\<exists>u \<in> set (rows st). \<exists>h \<in> set (keys_or_empty u). cmp k h) \<longrightarrow>
        (\<forall>u. findUnique_id st userId = Some u \<longrightarrow>
           (\<exists>pre post. rows st = pre @ u # post \<and> (\<forall>v \<in> set pre. id_field v \<noteq> userId) \<and>
              addBiometricKey hsh cmp st now salt userId k
                = (Inr (u\<lparr>biometricKeys := Some (keys_or_empty u @ [hsh salt k 10]), updatedAt := now\<rparr>),
                   st\<lparr>rows := pre @ u\<lparr>biometricKeys := Some (keys_or_empty u @ [hsh salt k 10]),
                                        updatedAt := now\<rparr> # post\<rparr>))))"
proof -
  let ?M = "\<exists>u \<in> set (rows st). \<exists>h \<in> set (keys_or_empty u). cmp k h"
  have none: "findUserByBiometricKey cmp st k = None \<longleftrightarrow> \<not> ?M"
    by (simp add: findUserByBiometricKey_def findMany_def scan_users_None_iff)
  have conflict: "addBiometricKey hsh cmp st now salt userId k
          = (Inl (ConflictException ''Biometric key already exists for another user''), st)" if ?M
  proof -
    from that none have "findUserByBiometricKey cmp st k \<noteq> None" by blast
    then show ?thesis by (auto simp: addBiometricKey_def)
  qed
  have upd: "addBiometricKey hsh cmp st now salt userId k = update st now userId (hsh salt k 10)"
    if "\<not> ?M"
    using that none by (simp add: addBiometricKey_def)
  have noconf: "\<not> (\<exists>m. fst (addBiometricKey hsh cmp st now salt userId k) = Inl (ConflictException m))"
    if "\<not> ?M"
    using upd [OF that] by (auto simp: update_def split: option.splits)
  have ok: "\<exists>pre post. rows st = pre @ u # post \<and> (\<forall>v \<in> set pre. id_field v \<noteq> userId) \<and>
              addBiometricKey hsh cmp st now salt userId k
                = (Inr (u\<lparr>biometricKeys := Some (keys_or_empty u @ [hsh salt k 10]), updatedAt := now\<rparr>),
                   st\<lparr>rows := pre @ u\<lparr>biometricKeys := Some (keys_or_empty u @ [hsh salt k 10]),
                                        updatedAt := now\<rparr> # post\<rparr>)"
    if "\<not> ?M" and f: "findUnique_id st userId = Some u" for u
  proof -
    from f have "find (\<lambda>u. id_field u = userId) (rows st) = Some u"
      by (simp add: findUnique_id_def)
    from update_rows_Some [OF this, of now "hsh salt k 10"] obtain pre post where
      pp: "rows st = pre @ u # post" "\<forall>v \<in> set pre. id_field v \<noteq> userId"
          "update_rows now userId (hsh salt k 10) (rows st)
             = Some (push_key now (hsh salt k 10) u, pre @ push_key now (hsh salt k 10) u # post)"
      by blast
    from pp(3) have "update st now userId (hsh salt k 10)
        = (Inr (push_key now (hsh salt k 10) u), st\<lparr>rows := pre @ push_key now (hsh salt k 10) u # post\<rparr>)"
      by (simp add: update_def)
    with upd [OF that(1)] pp(1,2) show ?thesis
      by (auto simp: push_key_def)
  qed
  have c1: "(\<exists>m. fst (addBiometricKey hsh cmp st now salt userId k) = Inl (ConflictException m))
      \<longleftrightarrow> ?M"
  proof (cases ?M)
    case True
    from conflict [OF True] have "fst (addBiometricKey hsh cmp st now salt userId k)
      = Inl (ConflictException ''Biometric key already exists for another user'')" by simp
    with True show ?thesis by blast
  next
    case False
    with noconf [OF False] show ?thesis by blast
  qed
  have c2: "?M \<longrightarrow> addBiometricKey hsh cmp st now salt userId k
          = (Inl (ConflictException ''Biometric key already exists for another user''), st)"
    using conflict by blast
  have c3: "\<not> ?M \<longrightarrow>
        (\<forall>u. findUnique_id st userId = Some u \<longrightarrow>
           (\<exists>pre post. rows st = pre @ u # post \<and> (\<forall>v \<in> set pre. id_field v \<noteq> userId) \<and>
              addBiometricKey hsh cmp st now salt userId k
                = (Inr (u\<lparr>biometricKeys := Some (keys_or_empty u @ [hsh salt k 10]), updatedAt := now\<rparr>),
                   st\<lparr>rows := pre @ u\<lparr>biometricKeys := Some (keys_or_empty u @ [hsh salt k 10]),
                                        updatedAt := now\<rparr> # post\<rparr>)))"
    using ok by blast
  show ?thesis
    by (intro conjI) (rule c1, rule c2, rule c3)
qed

theorem C2_addBiometricKey_conflict_iff_witness:
  "(\<exists>u \<in> set (rows example_store). \<exists>h \<in> set (keys_or_empty u). fake_compare ''bio1'' h)
   \<and> addBiometricKey fake_hash fake_compare example_store 9 ''s9'' 2 ''bio1''
       = (Inl (ConflictException ''Biometric key already exists for another user''), example_store)
   \<and> addBiometricKey fake_hash fake_compare example_store 9 ''s9'' 1 ''bio1''
       = (Inl (ConflictException ''Biometric key already exists for another user''), example_store)
   \<and> \<not> (\<exists>u \<in> set (rows example_store). \<exists>h \<in> set (keys_or_empty u). fake_compare ''bio2'' h)
   \<and> findUnique_id example_store 2 = Some alice
   \<and> addBiometricKey fake_hash fake_compare example_store 9 ''s9'' 2 ''bio2''
       = (Inr (alice\<lparr>biometricKeys := Some [''sbio1'', ''sbio2''], updatedAt := 9\<rparr>),
          example_store\<lparr>rows := [bob, alice\<lparr>biometricKeys := Some [''sbio1'', ''sbio2''],
                                             updatedAt := 9\<rparr>, carol]\<rparr>)"
  using C2_addBiometricKey_conflict_iff [of fake_hash fake_compare example_store 9 "''s9''" 2 "''bio1''"]
    C2_addBiometricKey_conflict_iff [of fake_hash fake_compare example_store 9 "''s9''" 1 "''bio1''"]
    C2_addBiometricKey_conflict_iff [of fake_hash fake_compare example_store 9 "''s9''" 2 "''bio2''"]
  by (simp add: example_defs addBiometricKey_def findUserByBiometricKey_def update_def
      push_key_def Let_def)

text \<open>
  C4. \<open>validateUser\<close> returns the user exactly when a record has the email and its
  stored password hash verifies against the plaintext. It returns \<open>null\<close>, without an
  error, both when no record has the email and when the record's stored hash does not
  verify: the caller sees the same value in the two cases. On every store that
  \<open>createUser\<close> and \<open>addBiometricKey\<close> calls build from the empty one, each record
  holds a password hash and \<open>validateUser\<close> raises no error at all.
\<close>

theorem C4_validateUser_user_or_null:
  "(validateUser cmp st e pw = Inr (Some u)
      \<longleftrightarrow> findByEmail st e = Some u \<and> (\<exists>h. password u = Some h \<and> cmp pw h))
   \<and> ((\<forall>v \<in> set (rows st). email v \<noteq> e) \<longrightarrow> validateUser cmp st e pw = Inr None)
   \<and> (\<forall>v h. findByEmail st e = Some v \<and> password v = Some h \<and> \<not> cmp pw h
         \<longrightarrow> validateUser cmp st e pw = Inr None)
   \<and> (\<forall>err. validateUser cmp (run hsh cmp empty_store ops) e pw \<noteq> Inl err)"
proof -
  have "\<forall>u \<in> set (rows (run hsh cmp empty_store ops)). password u \<noteq> None"
    by (rule password_present_run) (simp add: empty_store_def)
  then have "\<forall>err. validateUser cmp (run hsh cmp empty_store ops) e pw \<noteq> Inl err"
    using validateUser_no_error by blast
  moreover have "(validateUser cmp st e pw = Inr (Some u)
      \<longleftrightarrow> findByEmail st e = Some u \<and> (\<exists>h. password u = Some h \<and> cmp pw h))
   \<and> ((\<forall>v \<in> set (rows st). email v \<noteq> e) \<longrightarrow> validateUser cmp st e pw = Inr None)
   \<and> (\<forall>v h. findByEmail st e = Some v \<and> password v = Some h \<and> \<not> cmp pw h
         \<longrightarrow> validateUser cmp st e pw = Inr None)"
    using findByEmail_None_iff [of st e]
    by (auto simp: validateUser_def split: option.splits)
  ultimately show ?thesis by blast
qed

theorem C4_validateUser_user_or_null_witness:
  "findByEmail example_store ''a@x.com'' = Some alice
   \<and> password alice = Some ''spw1''
   \<and> fake_compare ''pw1'' ''spw1'' \<and> \<not> fake_compare ''wrong'' ''spw1''
   \<and> validateUser fake_compare example_store ''a@x.com'' ''pw1'' = Inr (Some alice)
   \<and> validateUser fake_compare example_store ''a@x.com'' ''wrong'' = Inr None
   \<and> \<not> (\<exists>v \<in> set (rows example_store). email v = ''z@x.com'')
   \<and> validateUser fake_compare example_store ''z@x.com'' ''pw1'' = Inr None
   \<and> validateUser fake_compare (run fake_hash fake_compare empty_store example_operations)
        ''b@x.com'' ''wrong'' = Inr None"
  using C4_validateUser_user_or_null [of fake_compare example_store "''a@x.com''" "''pw1''" alice fake_hash example_operations]
    C4_validateUser_user_or_null [of fake_compare example_store "''a@x.com''" "''wrong''" alice fake_hash example_operations]
    C4_validateUser_user_or_null [of fake_compare example_store "''z@x.com''" "''pw1''" alice fake_hash example_operations]
    C4_validateUser_user_or_null [of fake_compare example_store "''b@x.com''" "''wrong''" alice fake_hash example_operations]
  by (simp add: example_defs example_operations_def run_defs)

text \<open>
  C5. \<open>biometricLogin\<close> fails with the \<open>BadRequestException\<close> "Invalid biometric key"
  when \<open>findUserByBiometricKey\<close> returns \<open>null\<close>; otherwise its token is the signature of
  the payload made of the matched user's \<open>email\<close> and of its \<open>id\<close> as \<open>sub\<close>.
\<close>

theorem C5_biometricLogin_token_or_error:
  "(findUserByBiometricKey cmp st k = None \<longrightarrow>
      biometricLogin sign cmp st k = Inl (BadRequestException ''Invalid biometric key''))
   \<and> (\<forall>u. findUserByBiometricKey cmp st k = Some u \<longrightarrow>
        biometricLogin sign cmp st k
          = Inr \<lparr>access_token = sign \<lparr>email_claim = email u, sub = id_field u\<rparr>\<rparr>)"
  by (simp add: biometricLogin_def login_def)

theorem C5_biometricLogin_token_or_error_witness:
  "findUserByBiometricKey fake_compare example_store ''nobody'' = None
   \<and> biometricLogin fake_sign fake_compare example_store ''nobody''
       = Inl (BadRequestException ''Invalid biometric key'')
   \<and> findUserByBiometricKey fake_compare example_store ''bio1'' = Some alice
   \<and> biometricLogin fake_sign fake_compare example_store ''bio1''
       = Inr \<lparr>access_token = fake_sign \<lparr>email_claim = ''a@x.com'', sub = 2\<rparr>\<rparr>"
  using C5_biometricLogin_token_or_error [of fake_compare example_store "''nobody''" fake_sign]
    C5_biometricLogin_token_or_error [of fake_compare example_store "''bio1''" fake_sign]
  by (simp add: example_defs findUserByBiometricKey_def)

text \<open>
  C7. When no record has the email and a plaintext verifies against the hashes made from
  it, \<open>createUser\<close> succeeds and appends one record to the store: its \<open>password\<close> field
  is the hash \<open>hsh salt pw 10\<close>, which verifies against the plaintext, and its key
  sequence is empty; \<open>validateUser\<close> with the same email and password then returns this
  record. The field holds the hash and not the plaintext, whenever the two differ.
\<close>

theorem C7_createUser_then_validateUser:
  assumes fresh: "\<forall>v \<in> set (rows st). email v \<noteq> e"
    and sound: "bcrypt_sound hsh cmp"
  shows "\<exists>u st'. createUser hsh st now salt e pw = (Inr u, st')
      \<and> rows st' = rows st @ [u]
      \<and> email u = e
      \<and> password u = Some (hsh salt pw 10)
      \<and> cmp pw (hsh salt pw 10)
      \<and> biometricKeys u = Some []
      \<and> validateUser cmp st' e pw = Inr (Some u)
      \<and> (hsh salt pw 10 \<noteq> pw \<longrightarrow> password u \<noteq> Some pw)"
proof -
  let ?u = "\<lparr>id_field = seq st, email = e, password = Some (hsh salt pw 10), biometricKeys = Some [],
              createdAt = now, updatedAt = now\<rparr>"
  let ?st' = "st\<lparr>rows := rows st @ [?u], seq := seq st + 1\<rparr>"
  have cr: "createUser hsh st now salt e pw = (Inr ?u, ?st')"
    by (rule createUser_fresh [OF fresh])
  have ver: "cmp pw (hsh salt pw 10)"
    using sound by (simp add: bcrypt_sound_def)
  have "find (\<lambda>v. email v = e) (rows st @ [?u]) = Some ?u"
    by (rule find_append_new) (use fresh in auto)
  then have "findByEmail ?st' e = Some ?u"
    by (simp add: findByEmail_def findUnique_email_def)
  with ver have val: "validateUser cmp ?st' e pw = Inr (Some ?u)"
    by (simp add: validateUser_def)
  from cr ver val show ?thesis
    by (intro exI [of _ ?u] exI [of _ ?st']) simp
qed

theorem C7_createUser_then_validateUser_witness:
  "\<not> (\<exists>v \<in> set (rows example_store). email v = ''d@x.com'')
   \<and> bcrypt_sound fake_hash fake_compare
   \<and> createUser fake_hash example_store 9 ''s9'' ''d@x.com'' ''pw-d''
       = (Inr \<lparr>id_field = 4, email = ''d@x.com'', password = Some ''spw-d'', biometricKeys = Some [],
                createdAt = 9, updatedAt = 9\<rparr>,
          \<lparr>rows = [bob, alice, carol,
                   \<lparr>id_field = 4, email = ''d@x.com'', password = Some ''spw-d'', biometricKeys = Some [],
                    createdAt = 9, updatedAt = 9\<rparr>],
           seq = 5\<rparr>)
   \<and> fake_compare ''pw-d'' ''spw-d''
   \<and> fake_hash ''s9'' ''pw-d'' 10 \<noteq> ''pw-d''
   \<and> validateUser fake_compare (snd (createUser fake_hash example_store 9 ''s9'' ''d@x.com'' ''pw-d''))
         ''d@x.com'' ''pw-d''
       = Inr (Some \<lparr>id_field = 4, email = ''d@x.com'', password = Some ''spw-d'', biometricKeys = Some [],
                     createdAt = 9, updatedAt = 9\<rparr>)"
  using C7_createUser_then_validateUser [of example_store "''d@x.com''" fake_hash fake_compare 9 "''s9''" "''pw-d''"]
    fake_bcrypt_sound
  by (simp add: example_defs run_defs)

text \<open>
  C8. When a plaintext verifies against the hashes made from it, after a successful
  \<open>addBiometricKey\<close> for a user \<open>biometricKeyExists\<close> is true for that user and that
  key. For a key that verifies against none of the hashes of the user's record it is
  false. Its result depends on the store only through the record of the user asked for.
\<close>

theorem C8_biometricKeyExists_after_add:
  "(bcrypt_sound hsh cmp \<longrightarrow>
      (\<forall>r st'. addBiometricKey hsh cmp st now salt userId k = (Inr r, st')
         \<longrightarrow> biometricKeyExists cmp st' userId k))
   \<and> (\<forall>u. findUnique_id st userId = Some u \<and> (\<forall>h \<in> set (keys_or_empty u). \<not> cmp k' h)
         \<longrightarrow> \<not> biometricKeyExists cmp st userId k')
   \<and> (findUnique_id st userId = findUnique_id st2 userId
         \<longrightarrow> biometricKeyExists cmp st userId k' = biometricKeyExists cmp st2 userId k')"
proof (intro conjI impI allI)
  fix r st'
  assume sound: "bcrypt_sound hsh cmp"
    and add: "addBiometricKey hsh cmp st now salt userId k = (Inr r, st')"
  from addBiometricKey_Inr [OF add] have "update st now userId (hsh salt k 10) = (Inr r, st')"
    by simp
  from update_Inr [OF this] obtain u pre post where
    pp: "\<forall>v \<in> set pre. id_field v \<noteq> userId" "id_field u = userId"
        "st' = st\<lparr>rows := pre @ push_key now (hsh salt k 10) u # post\<rparr>"
    by blast
  have "find (\<lambda>v. id_field v = userId) (pre @ push_key now (hsh salt k 10) u # post)
      = Some (push_key now (hsh salt k 10) u)"
    by (rule find_mid) (use pp in auto)
  with pp(3) have "findUnique_id st' userId = Some (push_key now (hsh salt k 10) u)"
    by (simp add: findUnique_id_def)
  moreover from sound have "cmp k (hsh salt k 10)"
    by (simp add: bcrypt_sound_def)
  ultimately show "biometricKeyExists cmp st' userId k"
    by (auto simp: biometricKeyExists_iff)
next
  fix u
  assume "findUnique_id st userId = Some u \<and> (\<forall>h \<in> set (keys_or_empty u). \<not> cmp k' h)"
  then show "\<not> biometricKeyExists cmp st userId k'"
    by (auto simp: biometricKeyExists_iff)
next
  assume "findUnique_id st userId = findUnique_id st2 userId"
  then show "biometricKeyExists cmp st userId k' = biometricKeyExists cmp st2 userId k'"
    by (simp add: biometricKeyExists_iff)
qed

theorem C8_biometricKeyExists_after_add_witness:
  "bcrypt_sound fake_hash fake_compare
   \<and> addBiometricKey fake_hash fake_compare example_store 9 ''s9'' 2 ''bio2''
       = (Inr (alice\<lparr>biometricKeys := Some [''sbio1'', ''sbio2''], updatedAt := 9\<rparr>),
          example_store\<lparr>rows := [bob, alice\<lparr>biometricKeys := Some [''sbio1'', ''sbio2''],
                                             updatedAt := 9\<rparr>, carol]\<rparr>)
   \<and> biometricKeyExists fake_compare
        (example_store\<lparr>rows := [bob, alice\<lparr>biometricKeys := Some [''sbio1'', ''sbio2''],
                                           updatedAt := 9\<rparr>, carol]\<rparr>) 2 ''bio2''
   \<and> findUnique_id example_store 2 = Some alice
   \<and> \<not> (\<exists>h \<in> set (keys_or_empty alice). fake_compare ''bio3'' h)
   \<and> \<not> biometricKeyExists fake_compare example_store 2 ''bio3''
   \<and> findUnique_id example_store 3 = findUnique_id (example_store\<lparr>rows := [carol, alice]\<rparr>) 3
   \<and> biometricKeyExists fake_compare example_store 3 ''bio1''
       = biometricKeyExists fake_compare (example_store\<lparr>rows := [carol, alice]\<rparr>) 3 ''bio1''
   \<and> \<not> biometricKeyExists fake_compare example_store 3 ''bio1''"
  using C8_biometricKeyExists_after_add [of fake_hash fake_compare example_store 9 "''s9''" 2 "''bio2''" "''bio3''" example_store]
    C8_biometricKeyExists_after_add [of fake_hash fake_compare example_store 9 "''s9''" 3 "''bio2''" "''bio1''"
         "example_store\<lparr>rows := [carol, alice]\<rparr>"]
    fake_bcrypt_sound
  by (simp add: example_defs run_defs)

text \<open>
  C10. \<open>biometricKeyExists\<close> is false for an id no record has, and false for a record
  without a \<open>biometricKeys\<close> field. Both \<open>biometricKeyExists\<close> and
  \<open>findUserByBiometricKey\<close> give the same result on a store and on the same store with
  every absent sequence replaced by the empty one, and \<open>findUserByBiometricKey\<close> never
  returns a record without the field.
\<close>

theorem C10_absent_user_or_keys:
  "((\<forall>u \<in> set (rows st). id_field u \<noteq> userId) \<longrightarrow> biometricKeyExists cmp st userId k = False)
   \<and> (\<forall>u. findUnique_id st userId = Some u \<and> biometricKeys u = None
         \<longrightarrow> biometricKeyExists cmp st userId k = False)
   \<and> biometricKeyExists cmp (st\<lparr>rows := map with_keys_present (rows st)\<rparr>) userId k
       = biometricKeyExists cmp st userId k
   \<and> findUserByBiometricKey cmp (st\<lparr>rows := map with_keys_present (rows st)\<rparr>) k
       = findUserByBiometricKey cmp st k
   \<and> (\<forall>u. findUserByBiometricKey cmp st k = Some u \<longrightarrow> biometricKeys u \<noteq> None)"
proof (intro conjI impI allI)
  assume "\<forall>u \<in> set (rows st). id_field u \<noteq> userId"
  then have "findUnique_id st userId = None"
    by (auto simp: findUnique_id_def find_None_iff)
  then show "biometricKeyExists cmp st userId k = False"
    by (simp add: biometricKeyExists_def)
next
  fix u assume "findUnique_id st userId = Some u \<and> biometricKeys u = None"
  then show "biometricKeyExists cmp st userId k = False"
    by (simp add: biometricKeyExists_def)
next
  show "biometricKeyExists cmp (st\<lparr>rows := map with_keys_present (rows st)\<rparr>) userId k
       = biometricKeyExists cmp st userId k"
    by (cases "find (\<lambda>u. id_field u = userId) (rows st)")
      (auto simp: biometricKeyExists_iff findUnique_id_def find_id_with_keys_present)
next
  show "findUserByBiometricKey cmp (st\<lparr>rows := map with_keys_present (rows st)\<rparr>) k
       = findUserByBiometricKey cmp st k"
    by (simp add: findUserByBiometricKey_def findMany_def scan_users_with_keys_present)
next
  fix u assume "findUserByBiometricKey cmp st k = Some u"
  then show "biometricKeys u \<noteq> None"
    using scan_users_Some_keys [of cmp k "rows st" u]
    by (simp add: findUserByBiometricKey_def findMany_def)
qed

theorem C10_absent_user_or_keys_witness:
  "\<not> (\<exists>u \<in> set (rows example_store). id_field u = 42)
   \<and> biometricKeyExists fake_compare example_store 42 ''bio1'' = False
   \<and> findUnique_id example_store 1 = Some bob \<and> biometricKeys bob = None
   \<and> biometricKeyExists fake_compare example_store 1 ''bio1'' = False
   \<and> findUserByBiometricKey fake_compare example_store ''bio1'' = Some alice
   \<and> biometricKeys alice \<noteq> None
   \<and> findUserByBiometricKey fake_compare
        (example_store\<lparr>rows := map with_keys_present (rows example_store)\<rparr>) ''bio1'' = Some alice"
  using C10_absent_user_or_keys [of example_store 42 fake_compare "''bio1''"]
    C10_absent_user_or_keys [of example_store 1 fake_compare "''bio1''"]
  by (simp add: example_defs run_defs with_keys_present_def)

lemma registerWithBiometric_try_steps:
  "(validateUser cmp st e pw = Inr None \<longrightarrow>
      registerWithBiometric_try hsh cmp st now salt e pw k
        = (Inl (BadRequestException ''Invalid email or password''), st))
   \<and> (\<forall>u. validateUser cmp st e pw = Inr (Some u) \<and> k \<in> set (keys_or_empty u) \<longrightarrow>
        registerWithBiometric_try hsh cmp st now salt e pw k
          = (Inl (BadRequestException ''Biometric key already registered''), st))
   \<and> (\<forall>u. validateUser cmp st e pw = Inr (Some u) \<and> k \<notin> set (keys_or_empty u) \<longrightarrow>
        registerWithBiometric_try hsh cmp st now salt e pw k
          = (case addBiometricKey hsh cmp st now salt (id_field u) k of
               (Inl err, st') \<Rightarrow> (Inl err, st')
             | (Inr _, st') \<Rightarrow> (Inr (''Biometric key added successfully for '' @ email u), st')))
   \<and> (\<forall>msg st'. registerWithBiometric hsh cmp st now salt e pw k = (Inr msg, st') \<longrightarrow>
        (\<exists>u r. validateUser cmp st e pw = Inr (Some u)
           \<and> k \<notin> set (keys_or_empty u)
           \<and> (\<forall>v \<in> set (rows st). \<forall>h \<in> set (keys_or_empty v). \<not> cmp k h)
           \<and> addBiometricKey hsh cmp st now salt (id_field u) k = (Inr r, st')
           \<and> msg = ''Biometric key added successfully for '' @ email u))
   \<and> (\<forall>err. fst (registerWithBiometric hsh cmp st now salt e pw k) = Inl err \<longrightarrow>
        err = BadRequestException ''Failed to set up biometric key'')"
proof (intro conjI allI impI)
  assume "validateUser cmp st e pw = Inr None"
  then show "registerWithBiometric_try hsh cmp st now salt e pw k
        = (Inl (BadRequestException ''Invalid email or password''), st)"
    by (simp add: registerWithBiometric_try_def)
next
  fix u assume "validateUser cmp st e pw = Inr (Some u) \<and> k \<in> set (keys_or_empty u)"
  then show "registerWithBiometric_try hsh cmp st now salt e pw k
          = (Inl (BadRequestException ''Biometric key already registered''), st)"
    by (simp add: registerWithBiometric_try_def)
next
  fix u assume "validateUser cmp st e pw = Inr (Some u) \<and> k \<notin> set (keys_or_empty u)"
  then show "registerWithBiometric_try hsh cmp st now salt e pw k
          = (case addBiometricKey hsh cmp st now salt (id_field u) k of
               (Inl err, st') \<Rightarrow> (Inl err, st')
             | (Inr _, st') \<Rightarrow> (Inr (''Biometric key added successfully for '' @ email u), st'))"
    by (simp add: registerWithBiometric_try_def)
next
  fix msg st'
  assume ok: "registerWithBiometric hsh cmp st now salt e pw k = (Inr msg, st')"
  then have body: "registerWithBiometric_try hsh cmp st now salt e pw k = (Inr msg, st')"
    by (auto simp: registerWithBiometric_def split: prod.splits sum.splits)
  from body obtain u where v: "validateUser cmp st e pw = Inr (Some u)"
    by (auto simp: registerWithBiometric_try_def split: sum.splits option.splits)
  with body have lit: "k \<notin> set (keys_or_empty u)"
    by (auto simp: registerWithBiometric_try_def Let_def split: if_splits)
  with body v obtain r where add: "addBiometricKey hsh cmp st now salt (id_field u) k = (Inr r, st')"
    and msg: "msg = ''Biometric key added successfully for '' @ email u"
    by (auto simp: registerWithBiometric_try_def Let_def split: prod.splits sum.splits)
  from addBiometricKey_Inr [OF add] have "findUserByBiometricKey cmp st k = None" by simp
  then have "\<forall>v \<in> set (rows st). \<forall>h \<in> set (keys_or_empty v). \<not> cmp k h"
    by (simp add: findUserByBiometricKey_def findMany_def scan_users_None_iff)
  with v lit add msg
  show "\<exists>u r. validateUser cmp st e pw = Inr (Some u)
           \<and> k \<notin> set (keys_or_empty u)
           \<and> (\<forall>v \<in> set (rows st). \<forall>h \<in> set (keys_or_empty v). \<not> cmp k h)
           \<and> addBiometricKey hsh cmp st now salt (id_field u) k = (Inr r, st')
           \<and> msg = ''Biometric key added successfully for '' @ email u"
    by blast
next
  fix err
  assume "fst (registerWithBiometric hsh cmp st now salt e pw k) = Inl err"
  then show "err = BadRequestException ''Failed to set up biometric key''"
    by (auto simp: registerWithBiometric_def split: prod.splits sum.splits)
qed


text \<open>
  C9. \<open>registerWithBiometric\<close> validates the email and password first: when
  \<open>validateUser\<close> returns \<open>null\<close> its body raises "Invalid email or password". Then,
  when the plaintext key is, as a string, an element of the validated user's
  \<open>biometricKeys\<close>, the body raises "Biometric key already registered". Otherwise the
  outcome is the one of \<open>addBiometricKey\<close> for that user, with its scan of every stored
  hash. The mutation succeeds exactly when both checks have passed and the update went
  through, with the store \<open>addBiometricKey\<close> left and the success message; every failure
  reaches the caller as the one \<open>BadRequestException\<close> of the \<open>catch\<close>, with the
  store unchanged in the first two cases.
\<close>

theorem C9_registerWithBiometric_checks:
  "(validateUser cmp st e pw = Inr None \<longrightarrow>
      registerWithBiometric_try hsh cmp st now salt e pw k
        = (Inl (BadRequestException ''Invalid email or password''), st)
      \<and> registerWithBiometric hsh cmp st now salt e pw k
        = (Inl (BadRequestException ''Failed to set up biometric key''), st))
   \<and> (\<forall>u. validateUser cmp st e pw = Inr (Some u) \<and> k \<in> set (keys_or_empty u) \<longrightarrow>
        registerWithBiometric_try hsh cmp st now salt e pw k
          = (Inl (BadRequestException ''Biometric key already registered''), st)
        \<and> registerWithBiometric hsh cmp st now salt e pw k
          = (Inl (BadRequestException ''Failed to set up biometric key''), st))
   \<and> (\<forall>u. validateUser cmp st e pw = Inr (Some u) \<and> k \<notin> set (keys_or_empty u) \<longrightarrow>
        registerWithBiometric_try hsh cmp st now salt e pw k
          = (case addBiometricKey hsh cmp st now salt (id_field u) k of
               (Inl err, st') \<Rightarrow> (Inl err, st')
             | (Inr _, st') \<Rightarrow> (Inr (''Biometric key added successfully for '' @ email u), st'))
        \<and> registerWithBiometric hsh cmp st now salt e pw k
          = (case addBiometricKey hsh cmp st now salt (id_field u) k of
               (Inl err, st') \<Rightarrow> (Inl (BadRequestException ''Failed to set up biometric key''), st')
             | (Inr _, st') \<Rightarrow> (Inr (''Biometric key added successfully for '' @ email u), st')))
   \<and> (\<forall>msg st'. registerWithBiometric hsh cmp st now salt e pw k = (Inr msg, st') \<longleftrightarrow>
        (\<exists>u r. validateUser cmp st e pw = Inr (Some u)
           \<and> k \<notin> set (keys_or_empty u)
           \<and> (\<forall>v \<in> set (rows st). \<forall>h \<in> set (keys_or_empty v). \<not> cmp k h)
           \<and> addBiometricKey hsh cmp st now salt (id_field u) k = (Inr r, st')
           \<and> msg = ''Biometric key added successfully for '' @ email u))
   \<and> (\<forall>msg st'. registerWithBiometric_try hsh cmp st now salt e pw k = (Inr msg, st') \<longrightarrow>
        registerWithBiometric hsh cmp st now salt e pw k = (Inr msg, st'))
   \<and> (\<forall>err. fst (registerWithBiometric hsh cmp st now salt e pw k) = Inl err \<longrightarrow>
        err = BadRequestException ''Failed to set up biometric key'')"
proof -
  note old = registerWithBiometric_try_steps [of cmp st e pw hsh now salt k]
  have t1: "validateUser cmp st e pw = Inr None \<Longrightarrow>
      registerWithBiometric_try hsh cmp st now salt e pw k
        = (Inl (BadRequestException ''Invalid email or password''), st)"
    using old by blast
  have t2: "validateUser cmp st e pw = Inr (Some u) \<Longrightarrow> k \<in> set (keys_or_empty u) \<Longrightarrow>
        registerWithBiometric_try hsh cmp st now salt e pw k
          = (Inl (BadRequestException ''Biometric key already registered''), st)" for u
    using old by blast
  have t3: "validateUser cmp st e pw = Inr (Some u) \<Longrightarrow> k \<notin> set (keys_or_empty u) \<Longrightarrow>
        registerWithBiometric_try hsh cmp st now salt e pw k
          = (case addBiometricKey hsh cmp st now salt (id_field u) k of
               (Inl err, st') \<Rightarrow> (Inl err, st')
             | (Inr _, st') \<Rightarrow> (Inr (''Biometric key added successfully for '' @ email u), st'))" for u
    using old by blast
  have c1: "validateUser cmp st e pw = Inr None \<longrightarrow>
      registerWithBiometric_try hsh cmp st now salt e pw k
        = (Inl (BadRequestException ''Invalid email or password''), st)
      \<and> registerWithBiometric hsh cmp st now salt e pw k
        = (Inl (BadRequestException ''Failed to set up biometric key''), st)"
    using t1 by (simp add: registerWithBiometric_of_try)
  have c2: "\<forall>u. validateUser cmp st e pw = Inr (Some u) \<and> k \<in> set (keys_or_empty u) \<longrightarrow>
        registerWithBiometric_try hsh cmp st now salt e pw k
          = (Inl (BadRequestException ''Biometric key already registered''), st)
        \<and> registerWithBiometric hsh cmp st now salt e pw k
          = (Inl (BadRequestException ''Failed to set up biometric key''), st)"
    using t2 by (simp add: registerWithBiometric_of_try)
  have c3: "\<forall>u. validateUser cmp st e pw = Inr (Some u) \<and> k \<notin> set (keys_or_empty u) \<longrightarrow>
        registerWithBiometric_try hsh cmp st now salt e pw k
          = (case addBiometricKey hsh cmp st now salt (id_field u) k of
               (Inl err, st') \<Rightarrow> (Inl err, st')
             | (Inr _, st') \<Rightarrow> (Inr (''Biometric key added successfully for '' @ email u), st'))
        \<and> registerWithBiometric hsh cmp st now salt e pw k
          = (case addBiometricKey hsh cmp st now salt (id_field u) k of
               (Inl err, st') \<Rightarrow> (Inl (BadRequestException ''Failed to set up biometric key''), st')
             | (Inr _, st') \<Rightarrow> (Inr (''Biometric key added successfully for '' @ email u), st'))"
  proof (intro allI impI)
    fix u assume a: "validateUser cmp st e pw = Inr (Some u) \<and> k \<notin> set (keys_or_empty u)"
    then have t: "registerWithBiometric_try hsh cmp st now salt e pw k
          = (case addBiometricKey hsh cmp st now salt (id_field u) k of
               (Inl err, st') \<Rightarrow> (Inl err, st')
             | (Inr _, st') \<Rightarrow> (Inr (''Biometric key added successfully for '' @ email u), st'))"
      using t3 by blast
    have "registerWithBiometric hsh cmp st now salt e pw k
          = (case addBiometricKey hsh cmp st now salt (id_field u) k of
               (Inl err, st') \<Rightarrow> (Inl (BadRequestException ''Failed to set up biometric key''), st')
             | (Inr _, st') \<Rightarrow> (Inr (''Biometric key added successfully for '' @ email u), st'))"
      unfolding registerWithBiometric_of_try t
      by (simp split: prod.splits sum.splits)
    with t show "registerWithBiometric_try hsh cmp st now salt e pw k
          = (case addBiometricKey hsh cmp st now salt (id_field u) k of
               (Inl err, st') \<Rightarrow> (Inl err, st')
             | (Inr _, st') \<Rightarrow> (Inr (''Biometric key added successfully for '' @ email u), st'))
        \<and> registerWithBiometric hsh cmp st now salt e pw k
          = (case addBiometricKey hsh cmp st now salt (id_field u) k of
               (Inl err, st') \<Rightarrow> (Inl (BadRequestException ''Failed to set up biometric key''), st')
             | (Inr _, st') \<Rightarrow> (Inr (''Biometric key added successfully for '' @ email u), st'))"
      by blast
  qed
  have c5: "\<forall>msg st'. registerWithBiometric_try hsh cmp st now salt e pw k = (Inr msg, st') \<longrightarrow>
        registerWithBiometric hsh cmp st now salt e pw k = (Inr msg, st')"
    by (simp add: registerWithBiometric_of_try)
  have c4: "\<forall>msg st'. registerWithBiometric hsh cmp st now salt e pw k = (Inr msg, st') \<longleftrightarrow>
        (\<exists>u r. validateUser cmp st e pw = Inr (Some u)
           \<and> k \<notin> set (keys_or_empty u)
           \<and> (\<forall>v \<in> set (rows st). \<forall>h \<in> set (keys_or_empty v). \<not> cmp k h)
           \<and> addBiometricKey hsh cmp st now salt (id_field u) k = (Inr r, st')
           \<and> msg = ''Biometric key added successfully for '' @ email u)"
  proof (intro allI iffI)
    fix msg st'
    assume "registerWithBiometric hsh cmp st now salt e pw k = (Inr msg, st')"
    with old show "\<exists>u r. validateUser cmp st e pw = Inr (Some u)
           \<and> k \<notin> set (keys_or_empty u)
           \<and> (\<forall>v \<in> set (rows st). \<forall>h \<in> set (keys_or_empty v). \<not> cmp k h)
           \<and> addBiometricKey hsh cmp st now salt (id_field u) k = (Inr r, st')
           \<and> msg = ''Biometric key added successfully for '' @ email u"
      by blast
  next
    fix msg st'
    assume "\<exists>u r. validateUser cmp st e pw = Inr (Some u)
           \<and> k \<notin> set (keys_or_empty u)
           \<and> (\<forall>v \<in> set (rows st). \<forall>h \<in> set (keys_or_empty v). \<not> cmp k h)
           \<and> addBiometricKey hsh cmp st now salt (id_field u) k = (Inr r, st')
           \<and> msg = ''Biometric key added successfully for '' @ email u"
    then obtain u r where v: "validateUser cmp st e pw = Inr (Some u)"
      and m: "k \<notin> set (keys_or_empty u)"
      and a: "addBiometricKey hsh cmp st now salt (id_field u) k = (Inr r, st')"
      and msg: "msg = ''Biometric key added successfully for '' @ email u"
      by blast
    from t3 [OF v m] a msg have "registerWithBiometric_try hsh cmp st now salt e pw k = (Inr msg, st')"
      by simp
    with c5 show "registerWithBiometric hsh cmp st now salt e pw k = (Inr msg, st')"
      by blast
  qed
  have c6: "\<forall>err. fst (registerWithBiometric hsh cmp st now salt e pw k) = Inl err \<longrightarrow>
        err = BadRequestException ''Failed to set up biometric key''"
    using old by blast
  show ?thesis
    by (intro conjI) (rule c1, rule c2, rule c3, rule c4, rule c5, rule c6)
qed

theorem C9_registerWithBiometric_checks_witness:
  "validateUser fake_compare example_store ''a@x.com'' ''wrong'' = Inr None
   \<and> registerWithBiometric_try fake_hash fake_compare example_store 9 ''s9'' ''a@x.com'' ''wrong'' ''bio2''
       = (Inl (BadRequestException ''Invalid email or password''), example_store)
   \<and> registerWithBiometric fake_hash fake_compare example_store 9 ''s9'' ''a@x.com'' ''wrong'' ''bio2''
       = (Inl (BadRequestException ''Failed to set up biometric key''), example_store)
   \<and> validateUser fake_compare example_store ''a@x.com'' ''pw1'' = Inr (Some alice)
   \<and> ''sbio1'' \<in> set (keys_or_empty alice)
   \<and> \<not> (\<exists>v \<in> set (rows example_store). \<exists>h \<in> set (keys_or_empty v). fake_compare ''sbio1'' h)
   \<and> registerWithBiometric_try fake_hash fake_compare example_store 9 ''s9'' ''a@x.com'' ''pw1'' ''sbio1''
       = (Inl (BadRequestException ''Biometric key already registered''), example_store)
   \<and> registerWithBiometric fake_hash fake_compare example_store 9 ''s9'' ''a@x.com'' ''pw1'' ''sbio1''
       = (Inl (BadRequestException ''Failed to set up biometric key''), example_store)
   \<and> ''bio1'' \<notin> set (keys_or_empty alice)
   \<and> registerWithBiometric_try fake_hash fake_compare example_store 9 ''s9'' ''a@x.com'' ''pw1'' ''bio1''
       = (Inl (ConflictException ''Biometric key already exists for another user''), example_store)
   \<and> registerWithBiometric fake_hash fake_compare example_store 9 ''s9'' ''a@x.com'' ''pw1'' ''bio1''
       = (Inl (BadRequestException ''Failed to set up biometric key''), example_store)
   \<and> ''bio2'' \<notin> set (keys_or_empty alice)
   \<and> \<not> (\<exists>v \<in> set (rows example_store). \<exists>h \<in> set (keys_or_empty v). fake_compare ''bio2'' h)
   \<and> addBiometricKey fake_hash fake_compare example_store 9 ''s9'' (id_field alice) ''bio2''
       = (Inr (alice\<lparr>biometricKeys := Some [''sbio1'', ''sbio2''], updatedAt := 9\<rparr>),
          example_store\<lparr>rows := [bob, alice\<lparr>biometricKeys := Some [''sbio1'', ''sbio2''],
                                             updatedAt := 9\<rparr>, carol]\<rparr>)
   \<and> registerWithBiometric_try fake_hash fake_compare example_store 9 ''s9'' ''a@x.com'' ''pw1'' ''bio2''
       = (Inr ''Biometric key added successfully for a@x.com'',
          example_store\<lparr>rows := [bob, alice\<lparr>biometricKeys := Some [''sbio1'', ''sbio2''],
                                             updatedAt := 9\<rparr>, carol]\<rparr>)
   \<and> registerWithBiometric fake_hash fake_compare example_store 9 ''s9'' ''a@x.com'' ''pw1'' ''bio2''
       = (Inr ''Biometric key added successfully for a@x.com'',
          example_store\<lparr>rows := [bob, alice\<lparr>biometricKeys := Some [''sbio1'', ''sbio2''],
                                             updatedAt := 9\<rparr>, carol]\<rparr>)"
proof -
  let ?st' = "example_store\<lparr>rows := [bob, alice\<lparr>biometricKeys := Some [''sbio1'', ''sbio2''],
                                                  updatedAt := 9\<rparr>, carol]\<rparr>"
  let ?failed = "BadRequestException ''Failed to set up biometric key''"
  have v1: "validateUser fake_compare example_store ''a@x.com'' ''wrong'' = Inr None"
    by (simp add: example_defs validateUser_def)
  have v2: "validateUser fake_compare example_store ''a@x.com'' ''pw1'' = Inr (Some alice)"
    by (simp add: example_defs validateUser_def)
  have m1: "''sbio1'' \<in> set (keys_or_empty alice)"
    and m2: "''bio1'' \<notin> set (keys_or_empty alice)"
    and m3: "''bio2'' \<notin> set (keys_or_empty alice)"
    by (simp_all add: example_defs)
  have s1: "\<not> (\<exists>v \<in> set (rows example_store). \<exists>h \<in> set (keys_or_empty v). fake_compare ''sbio1'' h)"
    by (simp add: example_defs)
  have s2: "\<not> (\<exists>v \<in> set (rows example_store). \<exists>h \<in> set (keys_or_empty v). fake_compare ''bio2'' h)"
    by (simp add: example_defs)
  have a1: "addBiometricKey fake_hash fake_compare example_store 9 ''s9'' (id_field alice) ''bio1''
      = (Inl (ConflictException ''Biometric key already exists for another user''), example_store)"
    by (simp add: example_defs addBiometricKey_def findUserByBiometricKey_def)
  have a2: "addBiometricKey fake_hash fake_compare example_store 9 ''s9'' (id_field alice) ''bio2''
      = (Inr (alice\<lparr>biometricKeys := Some [''sbio1'', ''sbio2''], updatedAt := 9\<rparr>), ?st')"
    by (simp add: example_defs addBiometricKey_def findUserByBiometricKey_def update_def
        push_key_def Let_def)
  have e: "email alice = ''a@x.com''"
    by (simp add: alice_def)
  note wrong = C9_registerWithBiometric_checks
    [of fake_compare example_store "''a@x.com''" "''wrong''" fake_hash 9 "''s9''" "''bio2''"]
  note literal = C9_registerWithBiometric_checks
    [of fake_compare example_store "''a@x.com''" "''pw1''" fake_hash 9 "''s9''" "''sbio1''"]
  note taken = C9_registerWithBiometric_checks
    [of fake_compare example_store "''a@x.com''" "''pw1''" fake_hash 9 "''s9''" "''bio1''"]
  note fresh = C9_registerWithBiometric_checks
    [of fake_compare example_store "''a@x.com''" "''pw1''" fake_hash 9 "''s9''" "''bio2''"]
  have r1: "registerWithBiometric_try fake_hash fake_compare example_store 9 ''s9'' ''a@x.com'' ''wrong'' ''bio2''
       = (Inl (BadRequestException ''Invalid email or password''), example_store)"
    and q1: "registerWithBiometric fake_hash fake_compare example_store 9 ''s9'' ''a@x.com'' ''wrong'' ''bio2''
       = (Inl ?failed, example_store)"
    using wrong v1 by blast+
  have r2: "registerWithBiometric_try fake_hash fake_compare example_store 9 ''s9'' ''a@x.com'' ''pw1'' ''sbio1''
       = (Inl (BadRequestException ''Biometric key already registered''), example_store)"
    and q2: "registerWithBiometric fake_hash fake_compare example_store 9 ''s9'' ''a@x.com'' ''pw1'' ''sbio1''
       = (Inl ?failed, example_store)"
    using literal v2 m1 by blast+
  have "registerWithBiometric_try fake_hash fake_compare example_store 9 ''s9'' ''a@x.com'' ''pw1'' ''bio1''
       = (case addBiometricKey fake_hash fake_compare example_store 9 ''s9'' (id_field alice) ''bio1'' of
               (Inl err, st') \<Rightarrow> (Inl err, st')
             | (Inr _, st') \<Rightarrow> (Inr (''Biometric key added successfully for '' @ email alice), st'))"
    and "registerWithBiometric fake_hash fake_compare example_store 9 ''s9'' ''a@x.com'' ''pw1'' ''bio1''
       = (case addBiometricKey fake_hash fake_compare example_store 9 ''s9'' (id_field alice) ''bio1'' of
               (Inl err, st') \<Rightarrow> (Inl ?failed, st')
             | (Inr _, st') \<Rightarrow> (Inr (''Biometric key added successfully for '' @ email alice), st'))"
    using taken v2 m2 by blast+
  then have r3: "registerWithBiometric_try fake_hash fake_compare example_store 9 ''s9'' ''a@x.com'' ''pw1'' ''bio1''
       = (Inl (ConflictException ''Biometric key already exists for another user''), example_store)"
    and q3: "registerWithBiometric fake_hash fake_compare example_store 9 ''s9'' ''a@x.com'' ''pw1'' ''bio1''
       = (Inl ?failed, example_store)"
    by (simp_all only: a1 prod.case sum.case)
  have r4: "registerWithBiometric_try fake_hash fake_compare example_store 9 ''s9'' ''a@x.com'' ''pw1'' ''bio2''
       = (case addBiometricKey fake_hash fake_compare example_store 9 ''s9'' (id_field alice) ''bio2'' of
               (Inl err, st') \<Rightarrow> (Inl err, st')
             | (Inr _, st') \<Rightarrow> (Inr (''Biometric key added successfully for '' @ email alice), st'))"
    using fresh v2 m3 by blast
  then have r4': "registerWithBiometric_try fake_hash fake_compare example_store 9 ''s9'' ''a@x.com'' ''pw1'' ''bio2''
       = (Inr ''Biometric key added successfully for a@x.com'', ?st')"
    by (simp add: a2 e)
  have "\<exists>u r. validateUser fake_compare example_store ''a@x.com'' ''pw1'' = Inr (Some u)
           \<and> ''bio2'' \<notin> set (keys_or_empty u)
           \<and> (\<forall>v \<in> set (rows example_store). \<forall>h \<in> set (keys_or_empty v). \<not> fake_compare ''bio2'' h)
           \<and> addBiometricKey fake_hash fake_compare example_store 9 ''s9'' (id_field u) ''bio2'' = (Inr r, ?st')
           \<and> ''Biometric key added successfully for a@x.com''
               = ''Biometric key added successfully for '' @ email u"
    using v2 m3 s2 a2 e by (intro exI [of _ alice] exI) auto
  with fresh have q4: "registerWithBiometric fake_hash fake_compare example_store 9 ''s9'' ''a@x.com'' ''pw1'' ''bio2''
       = (Inr ''Biometric key added successfully for a@x.com'', ?st')"
    by blast
  show ?thesis
    by (intro conjI) (rule v1 r1 q1 v2 m1 s1 r2 q2 m2 r3 q3 m3 s2 a2 r4' q4)+
qed

text \<open>
  C1, as stated, fails on the code: the claim speaks of every store the operations can
  reach, and two \<open>addBiometricKey\<close> calls with the same plaintext for two users, both
  scanning before either writes, both succeed. Afterwards two records verify against
  the plaintext; the hash library used here meets \<open>bcrypt_ideal\<close>
  (\<open>fake_bcrypt_ideal\<close>).
\<close>

theorem C1_one_user_per_biometric_key_counterexample:
  "addBiometricKey_interleaved fake_hash fake_compare two_users 3 ''s3'' 1 ''bio1'' 4 ''s4'' 2 ''bio1''
      = (Inr \<lparr>id_field = 1, email = ''a@x.com'', password = Some ''spw1'',
               biometricKeys = Some [''sbio1''], createdAt = 1, updatedAt = 3\<rparr>,
         Inr \<lparr>id_field = 2, email = ''b@x.com'', password = Some ''spw2'',
               biometricKeys = Some [''sbio1''], createdAt = 2, updatedAt = 4\<rparr>,
         \<lparr>rows = [\<lparr>id_field = 1, email = ''a@x.com'', password = Some ''spw1'',
                    biometricKeys = Some [''sbio1''], createdAt = 1, updatedAt = 3\<rparr>,
                   \<lparr>id_field = 2, email = ''b@x.com'', password = Some ''spw2'',
                    biometricKeys = Some [''sbio1''], createdAt = 2, updatedAt = 4\<rparr>],
          seq = 3\<rparr>)
   \<and> length (matching_users fake_compare ''bio1''
        (snd (snd (addBiometricKey_interleaved fake_hash fake_compare two_users
                     3 ''s3'' 1 ''bio1'' 4 ''s4'' 2 ''bio1'')))) = 2"
proof -
  have ev: "addBiometricKey_interleaved fake_hash fake_compare two_users 3 ''s3'' 1 ''bio1'' 4 ''s4'' 2 ''bio1''
      = (Inr \<lparr>id_field = 1, email = ''a@x.com'', password = Some ''spw1'',
               biometricKeys = Some [''sbio1''], createdAt = 1, updatedAt = 3\<rparr>,
         Inr \<lparr>id_field = 2, email = ''b@x.com'', password = Some ''spw2'',
               biometricKeys = Some [''sbio1''], createdAt = 2, updatedAt = 4\<rparr>,
         \<lparr>rows = [\<lparr>id_field = 1, email = ''a@x.com'', password = Some ''spw1'',
                    biometricKeys = Some [''sbio1''], createdAt = 1, updatedAt = 3\<rparr>,
                   \<lparr>id_field = 2, email = ''b@x.com'', password = Some ''spw2'',
                    biometricKeys = Some [''sbio1''], createdAt = 2, updatedAt = 4\<rparr>],
          seq = 3\<rparr>)"
    by (simp add: addBiometricKey_interleaved_def addBiometricKey_scan_def addBiometricKey_write_def
        two_users_def example_defs run_defs)
  have "length (matching_users fake_compare ''bio1''
        (snd (snd (addBiometricKey_interleaved fake_hash fake_compare two_users
                     3 ''s3'' 1 ''bio1'' 4 ''s4'' 2 ''bio1'')))) = 2"
    unfolding ev by (simp add: matching_users_def example_defs)
  with ev show ?thesis by blast
qed

text \<open>
  C1, amended. When every call runs to its end before the next one starts, and with a
  hash library whose verification depends only on the plaintext behind a hash: in
  every store reached from the empty one by \<open>createUser\<close> and \<open>addBiometricKey\<close>
  calls, at most one record has a hash that verifies against a given plaintext. Once
  \<open>addBiometricKey\<close> has succeeded with a plaintext, every later \<open>addBiometricKey\<close>
  with the same plaintext, for any user and after any further calls, fails with the
  \<open>ConflictException\<close> and leaves the store as it is.
\<close>

theorem C1_one_user_per_biometric_key:
  assumes ideal: "bcrypt_ideal hsh cmp norm"
  shows "length (matching_users cmp p (run hsh cmp empty_store ops)) \<le> 1
    \<and> (\<forall>r st1 ops' now' salt' userId'.
          addBiometricKey hsh cmp st now salt userId k = (Inr r, st1) \<longrightarrow>
          addBiometricKey hsh cmp (run hsh cmp st1 ops') now' salt' userId' k
            = (Inl (ConflictException ''Biometric key already exists for another user''),
               run hsh cmp st1 ops'))"
proof
  have "\<forall>p. length (matching_users cmp p (run hsh cmp empty_store ops)) \<le> 1"
    by (rule invariant_run [OF ideal]) (simp_all add: empty_store_def matching_users_def)
  then show "length (matching_users cmp p (run hsh cmp empty_store ops)) \<le> 1" by blast
next
  show "\<forall>r st1 ops' now' salt' userId'.
          addBiometricKey hsh cmp st now salt userId k = (Inr r, st1) \<longrightarrow>
          addBiometricKey hsh cmp (run hsh cmp st1 ops') now' salt' userId' k
            = (Inl (ConflictException ''Biometric key already exists for another user''),
               run hsh cmp st1 ops')"
    using conflict_after_success [OF ideal_sound [OF ideal]] by blast
qed

theorem C1_one_user_per_biometric_key_witness:
  "bcrypt_ideal fake_hash fake_compare (\<lambda>p. p)
   \<and> length (matching_users fake_compare ''bio1'' (run fake_hash fake_compare empty_store example_operations)) = 1
   \<and> addBiometricKey fake_hash fake_compare example_store 9 ''s9'' 3 ''bio2''
       = (Inr (carol\<lparr>biometricKeys := Some [''sbio2''], updatedAt := 9\<rparr>),
          example_store\<lparr>rows := [bob, alice, carol\<lparr>biometricKeys := Some [''sbio2''], updatedAt := 9\<rparr>]\<rparr>)
   \<and> fst (addBiometricKey fake_hash fake_compare
        (run fake_hash fake_compare
           (example_store\<lparr>rows := [bob, alice, carol\<lparr>biometricKeys := Some [''sbio2''], updatedAt := 9\<rparr>]\<rparr>)
           [CreateUser 10 ''t'' ''d@x.com'' ''pw-d''])
        11 ''u'' 1 ''bio2'')
       = Inl (ConflictException ''Biometric key already exists for another user'')"
  using C1_one_user_per_biometric_key [OF fake_bcrypt_ideal, where p = "''bio1''" and ops = example_operations
      and st = example_store and now = 9 and salt = "''s9''" and userId = 3 and k = "''bio2''"]
    fake_bcrypt_ideal
  by (simp add: example_defs example_operations_def run_defs)

end
